theory Spec2Isabelle
  imports Complex_Main "HOL-Library.Sublist"
begin

section \<open>Crystal Orbital Overlap Population: the data\<close>

text \<open>
  The development follows \<^verbatim>\<open>nac/workflows/workflow_coop.py\<close>. Floating-point numbers are
  modelled as reals, so rounding is outside this model. Orbital counts and orbital
  indices are naturals: NumPy's 64-bit integers do not wrap for the index of an array
  that is held in memory.

  An exception is a value: a function that may raise returns \<open>error + 'a\<close>, with
  \<open>Inl\<close> the exception. \<open>IndexError\<close>, \<open>ValueError\<close> and \<open>IOError\<close> are the
  exceptions Python and NumPy raise under the source. \<open>ConfigurationError\<close> and
  \<open>SelectionError\<close> are the kinds the specification names; no line of the source
  raises them.
\<close>

datatype error = IndexError | ValueError | IOError | ConfigurationError | SelectionError

text \<open>
  A NumPy array of two axes is its shape and its entries. Every read in the model is
  preceded by the bounds check NumPy makes, so entries outside the shape are never used.
  An array of one axis is a list.
\<close>

record array2 =
  shape0 :: nat
  shape1 :: nat
  item :: "nat \<Rightarrow> nat \<Rightarrow> real"

text \<open>The first failure of a sequence of computations is the failure of the whole.\<close>

fun sequence :: "(error + 'a) list \<Rightarrow> error + 'a list" where
  "sequence [] = Inr []"
| "sequence (x # xs) =
     (case x of
        Inl e \<Rightarrow> Inl e
      | Inr v \<Rightarrow> (case sequence xs of Inl e \<Rightarrow> Inl e | Inr vs \<Rightarrow> Inr (v # vs)))"

section \<open>Strings\<close>

text \<open>
  \<^verbatim>\<open>str.lower()\<close> on ASCII text: the twenty-six capital letters are mapped to the small
  ones and every other character is kept.
\<close>

definition lower_char :: "char \<Rightarrow> char" where
  "lower_char c =
     (case map_of (zip ''ABCDEFGHIJKLMNOPQRSTUVWXYZ'' ''abcdefghijklmnopqrstuvwxyz'') c of
        Some d \<Rightarrow> d
      | None \<Rightarrow> c)"

definition lower :: "string \<Rightarrow> string" where
  "lower s = map lower_char s"

text \<open>Python's \<^verbatim>\<open>a in b\<close> for two strings: \<open>a\<close> occurs in \<open>b\<close> as a contiguous piece.\<close>

fun str_in :: "string \<Rightarrow> string \<Rightarrow> bool" where
  "str_in a [] = (a = [])"
| "str_in a (c # cs) = (prefix a (c # cs) \<or> str_in a cs)"

section \<open>Unit conversion (lines 91 to 96)\<close>

text \<open>
  \<^verbatim>\<open>get_eigenvalues_coefficients\<close>. The two arrays read from the HDF5 file and the entry
  \<^verbatim>\<open>'Hartree energy in eV'\<close> of SciPy's table of physical constants are parameters: the
  file and the table are not part of the source.
\<close>

definition get_eigenvalues_coefficients ::
  "real \<Rightarrow> array2 \<Rightarrow> real list \<Rightarrow> array2 \<times> real list" where
  "get_eigenvalues_coefficients h2ev atomic_orbitals energies =
     (atomic_orbitals, map (\<lambda>e. e * h2ev) energies)"

section \<open>Orbital indices and the reduced overlap matrix (lines 99 to 143)\<close>

text \<open>
  Modelled from the spec: the type of an atom and Python's \<^verbatim>\<open>in\<close> on it. The atom list
  is the result of \<^verbatim>\<open>readXYZ\<close>, which belongs to another package. The specification
  describes an atom as an element label with three coordinates, of which only the label
  is used here, and the match as: the element label, case ignored, is a substring of
  the atom label. The source lowers the element label (line 116); the rest of the match
  is the test \<^verbatim>\<open>in\<close> of the atom type, modelled here as: the query is a substring of the
  stored label, compared as it is. The two agree when the stored labels are in lower
  case, which the theorems on the match state as a hypothesis.
\<close>

record atom =
  label :: string
  coordinates :: "real \<times> real \<times> real"

definition atom_contains :: "string \<Rightarrow> atom \<Rightarrow> bool" where
  "atom_contains query a = str_in query (label a)"

text \<open>
  Lines 116 and 117: the indices of the atoms \<open>s\<close> with \<^verbatim>\<open>element.lower() in s\<close>, in the
  order of the atom list. The test \<^verbatim>\<open>in\<close> of the atom type is the parameter \<open>isin\<close>.
\<close>

definition element_index :: "(string \<Rightarrow> 'atom \<Rightarrow> bool) \<Rightarrow> 'atom list \<Rightarrow> string \<Rightarrow> nat list" where
  "element_index isin mol element =
     map fst (filter (\<lambda>(i, s). isin (lower element) s) (enumerate 0 mol))"

text \<open>\<^verbatim>\<open>np.cumsum\<close> on a list of counts.\<close>

fun cumsum_from :: "nat \<Rightarrow> nat list \<Rightarrow> nat list" where
  "cumsum_from acc [] = []"
| "cumsum_from acc (x # xs) = (acc + x) # cumsum_from (acc + x) xs"

definition cumsum :: "nat list \<Rightarrow> nat list" where
  "cumsum xs = cumsum_from 0 xs"

text \<open>
  Lines 121 and 122. The slice \<^verbatim>\<open>atom_indices[1:]\<close> has one place for each atom. NumPy
  assigns to it a sequence of the same length, repeats a sequence of length one, and
  raises ValueError for every other length.
\<close>

definition atom_indices :: "'a list \<Rightarrow> nat list \<Rightarrow> error + nat list" where
  "atom_indices mol sphericals =
     (let c = cumsum sphericals in
      if length c = length mol then Inr (0 # c)
      else if length c = 1 then Inr (0 # replicate (length mol) (hd c))
      else Inl ValueError)"

definition arange :: "nat \<Rightarrow> nat list" where
  "arange n = [0..<n]"

text \<open>
  Lines 124 to 127, and again lines 129 to 132 for the second element. The
  comprehension reads \<^verbatim>\<open>sphericals[i]\<close> and \<^verbatim>\<open>atom_indices[i]\<close>; the size given to
  \<^verbatim>\<open>np.reshape\<close> reads \<^verbatim>\<open>element_index[0]\<close>, which raises IndexError on an empty list
  before \<^verbatim>\<open>np.reshape\<close> is entered. \<^verbatim>\<open>np.reshape\<close> first makes an array of the list of
  ranges: NumPy (from 1.24 on) raises ValueError when the ranges differ in length;
  older versions build an array of objects that the reshape or the indexing of line
  137 rejects. The model follows the current behaviour. A rectangular array is
  flattened row by row when its size is the requested one.
\<close>

definition orbital_ind :: "nat list \<Rightarrow> nat list \<Rightarrow> nat list \<Rightarrow> error + nat list" where
  "orbital_ind sphericals atom_ind el_index =
     (if \<exists>i \<in> set el_index. length sphericals \<le> i \<or> length atom_ind \<le> i
      then Inl IndexError
      else
        let ranges = map (\<lambda>i. map (\<lambda>j. j + atom_ind ! i) (arange (sphericals ! i))) el_index
        in case el_index of
             [] \<Rightarrow> Inl IndexError
           | i0 # _ \<Rightarrow>
               if \<exists>r \<in> set ranges. length r \<noteq> length (hd ranges) then Inl ValueError
               else if length (concat ranges) \<noteq> length el_index * sphericals ! i0
               then Inl ValueError
               else Inr (concat ranges))"

text \<open>
  Lines 137 and 139: \<^verbatim>\<open>overlap[el_1_orbital_ind, :]\<close> and then
  \<^verbatim>\<open>overlap_reduced[:, el_2_orbital_ind]\<close>. An index outside the axis raises IndexError.
\<close>

definition take_rows :: "array2 \<Rightarrow> nat list \<Rightarrow> error + array2" where
  "take_rows A idx =
     (if \<exists>i \<in> set idx. shape0 A \<le> i then Inl IndexError
      else Inr \<lparr>shape0 = length idx, shape1 = shape1 A, item = (\<lambda>a j. item A (idx ! a) j)\<rparr>)"

definition take_cols :: "array2 \<Rightarrow> nat list \<Rightarrow> error + array2" where
  "take_cols A idx =
     (if \<exists>j \<in> set idx. shape1 A \<le> j then Inl IndexError
      else Inr \<lparr>shape0 = shape0 A, shape1 = length idx, item = (\<lambda>i b. item A i (idx ! b))\<rparr>)"

definition reduce_overlap :: "array2 \<Rightarrow> nat list \<Rightarrow> nat list \<Rightarrow> error + array2" where
  "reduce_overlap overlap el_1_orbital_ind el_2_orbital_ind =
     (case take_rows overlap el_1_orbital_ind of
        Inl e \<Rightarrow> Inl e
      | Inr overlap_reduced \<Rightarrow> take_cols overlap_reduced el_2_orbital_ind)"

text \<open>
  \<^verbatim>\<open>compute_overlap_and_atomic_orbitals\<close>. The overlap matrix (line 103), the number of
  spherical functions of each atom (line 106) and the two entries of
  \<^verbatim>\<open>config["coop_elements"]\<close> are parameters, as is the test \<open>isin\<close>: the functions
  that give them are not in the source.
\<close>

definition compute_overlap_and_atomic_orbitals ::
  "(string \<Rightarrow> 'atom \<Rightarrow> bool) \<Rightarrow> array2 \<Rightarrow> nat list \<Rightarrow> 'atom list \<Rightarrow> string \<Rightarrow> string
     \<Rightarrow> error + (nat list \<times> nat list \<times> array2)" where
  "compute_overlap_and_atomic_orbitals isin overlap sphericals mol element_1 element_2 =
     (let element_1_index = element_index isin mol element_1;
          element_2_index = element_index isin mol element_2
      in case atom_indices mol sphericals of
           Inl e \<Rightarrow> Inl e
         | Inr atom_ind \<Rightarrow>
             (case orbital_ind sphericals atom_ind element_1_index of
                Inl e \<Rightarrow> Inl e
              | Inr el_1_orbital_ind \<Rightarrow>
                  (case orbital_ind sphericals atom_ind element_2_index of
                     Inl e \<Rightarrow> Inl e
                   | Inr el_2_orbital_ind \<Rightarrow>
                       (case reduce_overlap overlap el_1_orbital_ind el_2_orbital_ind of
                          Inl e \<Rightarrow> Inl e
                        | Inr overlap_reduced \<Rightarrow>
                            Inr (el_1_orbital_ind, el_2_orbital_ind, overlap_reduced)))))"

section \<open>The contraction (lines 146 to 177)\<close>

text \<open>\<^verbatim>\<open>column[ind]\<close>: a column of the coefficient matrix read at a list of indices.\<close>

definition gather :: "real list \<Rightarrow> nat list \<Rightarrow> error + real list" where
  "gather column ind =
     (if \<exists>i \<in> set ind. length column \<le> i then Inl IndexError
      else Inr (map (\<lambda>i. column ! i) ind))"

text \<open>\<^verbatim>\<open>np.tensordot(a, b, 0)\<close> of two arrays of one axis: the outer product.\<close>

definition tensordot0 :: "real list \<Rightarrow> real list \<Rightarrow> array2" where
  "tensordot0 a b = \<lparr>shape0 = length a, shape1 = length b, item = (\<lambda>i j. a ! i * b ! j)\<rparr>"

text \<open>
  The product \<^verbatim>\<open>*\<close> of two arrays broadcasts: along each axis the two lengths are equal,
  or one of them is 1 and its single entry is repeated; otherwise NumPy raises
  ValueError.
\<close>

definition broadcast_dim :: "nat \<Rightarrow> nat \<Rightarrow> nat option" where
  "broadcast_dim d e =
     (if d = e then Some d else if d = 1 then Some e else if e = 1 then Some d else None)"

definition bidx :: "nat \<Rightarrow> nat \<Rightarrow> nat" where
  "bidx d i = (if d = 1 then 0 else i)"

definition multiply :: "array2 \<Rightarrow> array2 \<Rightarrow> error + array2" where
  "multiply A B =
     (case broadcast_dim (shape0 A) (shape0 B) of
        None \<Rightarrow> Inl ValueError
      | Some m \<Rightarrow>
          (case broadcast_dim (shape1 A) (shape1 B) of
             None \<Rightarrow> Inl ValueError
           | Some n \<Rightarrow>
               Inr \<lparr>shape0 = m, shape1 = n,
                    item = (\<lambda>i j. item A (bidx (shape0 A) i) (bidx (shape1 A) j)
                                 * item B (bidx (shape0 B) i) (bidx (shape1 B) j))\<rparr>))"

definition np_sum :: "array2 \<Rightarrow> real" where
  "np_sum A = (\<Sum>i<shape0 A. \<Sum>j<shape1 A. item A i j)"

text \<open>The inner function \<^verbatim>\<open>coop_func\<close>, applied to one column.\<close>

definition coop_func :: "real list \<Rightarrow> array2 \<Rightarrow> nat list \<Rightarrow> nat list \<Rightarrow> error + real" where
  "coop_func column overlap_reduced el_1_orbital_ind el_2_orbital_ind =
     (case gather column el_1_orbital_ind of
        Inl e \<Rightarrow> Inl e
      | Inr c1 \<Rightarrow>
          (case gather column el_2_orbital_ind of
             Inl e \<Rightarrow> Inl e
           | Inr c2 \<Rightarrow>
               (case multiply (tensordot0 c1 c2) overlap_reduced of
                  Inl e \<Rightarrow> Inl e
                | Inr M \<Rightarrow> Inr (np_sum M))))"

definition column :: "array2 \<Rightarrow> nat \<Rightarrow> real list" where
  "column A k = map (\<lambda>i. item A i k) [0..<shape0 A]"

text \<open>
  \<^verbatim>\<open>np.apply_along_axis(coop_func, 0, atomic_orbitals, ...)\<close> calls the function on each
  column, in order. On a matrix with no column it raises ValueError (\<^emph>\<open>Cannot
  apply_along_axis when any iteration dimensions are 0\<close>).
\<close>

definition compute_coop :: "array2 \<Rightarrow> array2 \<Rightarrow> nat list \<Rightarrow> nat list \<Rightarrow> error + real list" where
  "compute_coop atomic_orbitals overlap_reduced el_1_orbital_ind el_2_orbital_ind =
     (if shape1 atomic_orbitals = 0 then Inl ValueError
      else sequence (map (\<lambda>k. coop_func (column atomic_orbitals k) overlap_reduced
                                  el_1_orbital_ind el_2_orbital_ind)
                         [0..<shape1 atomic_orbitals]))"

section \<open>The result table (lines 180 to 186)\<close>

text \<open>
  \<^verbatim>\<open>print_coop\<close>. The table starts as zeros of shape \<^verbatim>\<open>(len(coop), 2)\<close>; column 0 takes the
  energies, which must be as many as the rows or a single one that is repeated, and
  column 1 takes the COOP values. \<^verbatim>\<open>np.savetxt\<close> then writes the rows to
  \<^verbatim>\<open>COOP.txt\<close>: the parameter \<open>writable\<close> says whether the file can be opened for
  writing, and the rows written are returned beside the table (the text format of the
  numbers is not modelled).
\<close>

definition rows_of :: "array2 \<Rightarrow> real list list" where
  "rows_of A = map (\<lambda>i. map (\<lambda>j. item A i j) [0..<shape1 A]) [0..<shape0 A]"

definition print_coop :: "bool \<Rightarrow> real list \<Rightarrow> real list \<Rightarrow> error + (array2 \<times> real list list)" where
  "print_coop writable energies coop =
     (let n = length coop in
      if length energies \<noteq> n \<and> length energies \<noteq> 1 then Inl ValueError
      else
        let result_coop =
              \<lparr>shape0 = n, shape1 = 2,
               item = (\<lambda>i j. if j = 0 then energies ! bidx (length energies) i
                              else if j = 1 then coop ! i else 0)\<rparr>
        in if \<not> writable then Inl IOError
           else Inr (result_coop, rows_of result_coop))"

text \<open>\<^verbatim>\<open>R.T\<close>: the transposed array, used to state the exchange of the two elements.\<close>

definition transpose_array :: "array2 \<Rightarrow> array2" where
  "transpose_array A = \<lparr>shape0 = shape1 A, shape1 = shape0 A, item = (\<lambda>i j. item A j i)\<rparr>"

section \<open>The orbital offset table\<close>

lemma length_cumsum_from: "length (cumsum_from acc xs) = length xs"
  by (induction xs arbitrary: acc) simp_all

lemma nth_cumsum_from:
  "i < length xs \<Longrightarrow> cumsum_from acc xs ! i = acc + sum_list (take (Suc i) xs)"
proof (induction xs arbitrary: acc i)
  case Nil
  then show ?case by simp
next
  case (Cons x xs)
  show ?case
  proof (cases i)
    case 0
    then show ?thesis by simp
  next
    case (Suc k)
    with Cons.prems have "k < length xs" by simp
    from Cons.IH [OF this, of "acc + x"] Suc show ?thesis by simp
  qed
qed

lemma atom_indices_eq:
  "length sphericals = length mol \<Longrightarrow> atom_indices mol sphericals = Inr (0 # cumsum sphericals)"
  by (simp add: atom_indices_def cumsum_def length_cumsum_from)

lemma nth_offsets:
  assumes "i \<le> length sphericals"
  shows "(0 # cumsum sphericals) ! i = sum_list (take i sphericals)"
proof (cases i)
  case 0
  then show ?thesis by simp
next
  case (Suc k)
  with assms have "k < length sphericals" by simp
  then show ?thesis using Suc by (simp add: cumsum_def nth_cumsum_from)
qed

lemma sum_list_take_Suc:
  "i < length (xs :: nat list) \<Longrightarrow> sum_list (take (Suc i) xs) = sum_list (take i xs) + xs ! i"
  by (simp add: take_Suc_conv_app_nth)

text \<open>
  Claim C6. When there is one orbital count for each atom, the offset table is computed
  without error; it has one entry more than there are atoms, starts at 0, is
  non-decreasing, each step \<open>offset[i+1] - offset[i]\<close> is \<open>sphericals[i]\<close>, entry \<open>i\<close> is
  the sum of the first \<open>i\<close> counts, and the last entry is the sum of all counts.
\<close>

theorem offset_table:
  assumes "length sphericals = length mol"
  shows "\<exists>offset. atom_indices mol sphericals = Inr offset
           \<and> length offset = length mol + 1
           \<and> offset ! 0 = 0
           \<and> sorted offset
           \<and> (\<forall>i < length mol. offset ! (i + 1) - offset ! i = sphericals ! i
                                \<and> offset ! (i + 1) = offset ! i + sphericals ! i)
           \<and> (\<forall>i \<le> length mol. offset ! i = sum_list (take i sphericals))
           \<and> last offset = sum_list sphericals"
proof -
  let ?off = "0 # cumsum sphericals"
  have len: "length ?off = length mol + 1"
    using assms by (simp add: cumsum_def length_cumsum_from)
  have nth: "?off ! i = sum_list (take i sphericals)" if "i \<le> length mol" for i
    using that assms nth_offsets [of i sphericals] by simp
  have step: "?off ! (i + 1) = ?off ! i + sphericals ! i" if "i < length mol" for i
  proof -
    have "?off ! (i + 1) = sum_list (take (Suc i) sphericals)"
      using that nth [of "i + 1"] by simp
    also have "\<dots> = sum_list (take i sphericals) + sphericals ! i"
      using that assms by (simp add: sum_list_take_Suc)
    also have "\<dots> = ?off ! i + sphericals ! i"
      using that nth [of i] by simp
    finally show ?thesis .
  qed
  have srt: "sorted ?off"
  proof -
    have "\<forall>i. Suc i < length ?off \<longrightarrow> ?off ! i \<le> ?off ! Suc i"
    proof (intro allI impI)
      fix i assume "Suc i < length ?off"
      then have "i < length mol" using len by simp
      from step [OF this] show "?off ! i \<le> ?off ! Suc i" by simp
    qed
    then show ?thesis by (simp only: sorted_iff_nth_Suc)
  qed
  have lst: "last ?off = sum_list sphericals"
  proof -
    have "last ?off = ?off ! (length ?off - 1)"
      by (rule last_conv_nth) simp
    also have "\<dots> = ?off ! length mol" using len by simp
    also have "\<dots> = sum_list (take (length mol) sphericals)" using nth by simp
    also have "\<dots> = sum_list sphericals" using assms by simp
    finally show ?thesis .
  qed
  have "atom_indices mol sphericals = Inr ?off"
    using assms by (rule atom_indices_eq)
  moreover have "?off ! 0 = 0" by simp
  moreover have "\<forall>i < length mol. ?off ! (i + 1) - ?off ! i = sphericals ! i
                                \<and> ?off ! (i + 1) = ?off ! i + sphericals ! i"
    using step by simp
  moreover have "\<forall>i \<le> length mol. ?off ! i = sum_list (take i sphericals)"
    using nth by simp
  ultimately show ?thesis using len srt lst by blast
qed

theorem offset_table_witness:
  "length [2, 3, 2 :: nat] = length [''cd'', ''se'', ''cd'']
   \<and> atom_indices [''cd'', ''se'', ''cd''] [2, 3, 2] = Inr [0, 2, 5, 7]
   \<and> sorted [0, 2, 5, 7 :: nat] \<and> last [0, 2, 5, 7 :: nat] = sum_list [2, 3, 2]"
proof -
  have h: "length [2, 3, 2 :: nat] = length [''cd'', ''se'', ''cd'']" by simp
  show ?thesis
    using h offset_table [OF h] by (simp add: atom_indices_def cumsum_def)
qed

section \<open>Unit conversion\<close>

text \<open>
  Claim C7. The converted energies are the given ones, each multiplied by the constant:
  the energy 1 becomes the constant itself, the vector keeps its length, and doubling
  the energies doubles the converted ones. The constant is the entry of SciPy's table
  and is a parameter here.
\<close>

theorem energy_conversion:
  "snd (get_eigenvalues_coefficients h2ev C [1]) = [h2ev]
   \<and> length (snd (get_eigenvalues_coefficients h2ev C energies)) = length energies
   \<and> (\<forall>i < length energies.
         snd (get_eigenvalues_coefficients h2ev C energies) ! i = energies ! i * h2ev)
   \<and> snd (get_eigenvalues_coefficients h2ev C (map (\<lambda>x. 2 * x) energies))
       = map (\<lambda>y. 2 * y) (snd (get_eigenvalues_coefficients h2ev C energies))"
  by (simp add: get_eigenvalues_coefficients_def)

theorem energy_conversion_witness:
  "snd (get_eigenvalues_coefficients 27.211386245988
          \<lparr>shape0 = 1, shape1 = 1, item = (\<lambda>i j. 1)\<rparr> [1]) = [27.211386245988]
   \<and> snd (get_eigenvalues_coefficients 27.211386245988
          \<lparr>shape0 = 1, shape1 = 1, item = (\<lambda>i j. 1)\<rparr> (map (\<lambda>x. 2 * x) [1, -0.5]))
       = [2 * 27.211386245988, 2 * (-0.5 * 27.211386245988)]"
  using energy_conversion [of "27.211386245988" "\<lparr>shape0 = 1, shape1 = 1, item = (\<lambda>i j. 1)\<rparr>" "[1, -0.5]"]
  by (simp add: get_eigenvalues_coefficients_def)

section \<open>The result table\<close>

lemma bidx_less: "i < d \<Longrightarrow> bidx d i = i"
  by (simp add: bidx_def)

lemma upt_2: "[0..<2] = [0, Suc 0]"
  by (simp add: upt_rec)

lemma print_coop_ok:
  assumes "length energies = length coop"
  shows "print_coop True energies coop
         = Inr (\<lparr>shape0 = length coop, shape1 = 2,
                 item = (\<lambda>i j. if j = 0 then energies ! bidx (length energies) i
                                else if j = 1 then coop ! i else 0)\<rparr>,
                map (\<lambda>i. [energies ! i, coop ! i]) [0..<length coop])"
proof -
  have "map (\<lambda>i. [energies ! bidx (length coop) i, coop ! i]) [0..<length coop]
        = map (\<lambda>i. [energies ! i, coop ! i]) [0..<length coop]"
    by (rule map_cong) (simp_all add: bidx_less)
  then show ?thesis
    using assms by (simp add: print_coop_def rows_of_def upt_2 Let_def)
qed

text \<open>
  Claim C9. For an energy vector and a COOP vector of the same length, and a file that
  can be written, \<^verbatim>\<open>print_coop\<close> returns a table with one row for each level and two
  columns; row \<open>i\<close> holds energy \<open>i\<close> in column 0 and COOP value \<open>i\<close> in column 1, so
  the order of the input is kept, and the same rows are the ones written to the file.
\<close>

theorem result_table:
  assumes "length energies = length coop" and "writable"
  shows "\<exists>T written. print_coop writable energies coop = Inr (T, written)
           \<and> shape0 T = length energies \<and> shape0 T = length coop \<and> shape1 T = 2
           \<and> (\<forall>i < length coop. item T i 0 = energies ! i \<and> item T i 1 = coop ! i)
           \<and> written = map (\<lambda>i. [energies ! i, coop ! i]) [0..<length coop]"
proof -
  from assms(2) have w: "writable = True" by simp
  show ?thesis
    unfolding w print_coop_ok [OF assms(1)] using assms(1) by (simp add: bidx_less)
qed

theorem result_table_witness:
  "length [-1.5, 0.25 :: real] = length [0.5, -0.125 :: real]
   \<and> (\<exists>T. print_coop True [-1.5, 0.25] [0.5, -0.125] = Inr (T, [[-1.5, 0.5], [0.25, -0.125]])
         \<and> shape0 T = 2 \<and> shape1 T = 2)"
proof -
  have h: "length [-1.5, 0.25 :: real] = length [0.5, -0.125 :: real]" by simp
  from result_table [OF h, of True]
  obtain T written where
    "print_coop True [-1.5, 0.25] [0.5, -0.125] = Inr (T, written)"
    "shape0 T = length [0.5, -0.125 :: real]" "shape1 T = 2"
    "written = map (\<lambda>i. [[-1.5, 0.25 :: real] ! i, [0.5, -0.125 :: real] ! i]) [0..<length [0.5, -0.125 :: real]]"
    by auto
  then show ?thesis using h by (simp add: upt_2)
qed

section \<open>The reduced overlap matrix\<close>

lemma reduce_overlap_ok:
  assumes "\<forall>i \<in> set idx1. i < shape0 S" and "\<forall>j \<in> set idx2. j < shape1 S"
  shows "reduce_overlap S idx1 idx2
         = Inr \<lparr>shape0 = length idx1, shape1 = length idx2,
                item = (\<lambda>a b. item S (idx1 ! a) (idx2 ! b))\<rparr>"
proof -
  have r: "\<not> (\<exists>i \<in> set idx1. shape0 S \<le> i)" using assms(1) by (auto simp: not_le)
  have c: "\<not> (\<exists>j \<in> set idx2. shape1 S \<le> j)" using assms(2) by (auto simp: not_le)
  show ?thesis using r c by (simp add: reduce_overlap_def take_rows_def take_cols_def)
qed

lemma compute_overlap_reduced:
  assumes "compute_overlap_and_atomic_orbitals isin overlap sphericals mol e1 e2
             = Inr (idx1, idx2, R)"
  shows "reduce_overlap overlap idx1 idx2 = Inr R"
  using assms
  by (auto simp: compute_overlap_and_atomic_orbitals_def Let_def split: sum.splits)

text \<open>
  Claim C2. For index sequences within the overlap matrix, the reduced matrix is
  computed without error, has \<open>len(idx1)\<close> rows and \<open>len(idx2)\<close> columns, and its entry
  \<open>(a, b)\<close> is \<open>S[idx1[a], idx2[b]]\<close>: the rows follow \<open>idx1\<close> and the columns follow
  \<open>idx2\<close>. It is the matrix \<^verbatim>\<open>compute_overlap_and_atomic_orbitals\<close> returns beside these
  index sequences.
\<close>

theorem reduced_overlap:
  assumes "\<forall>i \<in> set idx1. i < shape0 S" and "\<forall>j \<in> set idx2. j < shape1 S"
  shows "\<exists>R. reduce_overlap S idx1 idx2 = Inr R
           \<and> shape0 R = length idx1 \<and> shape1 R = length idx2
           \<and> (\<forall>a < length idx1. \<forall>b < length idx2. item R a b = item S (idx1 ! a) (idx2 ! b))
           \<and> (\<forall>isin sphericals (mol :: 'atom list) element_1 element_2 R'.
                 compute_overlap_and_atomic_orbitals isin S sphericals mol element_1 element_2
                   = Inr (idx1, idx2, R') \<longrightarrow> R' = R)"
proof -
  let ?R = "\<lparr>shape0 = length idx1, shape1 = length idx2,
             item = (\<lambda>a b. item S (idx1 ! a) (idx2 ! b))\<rparr>"
  have r: "reduce_overlap S idx1 idx2 = Inr ?R"
    using assms by (rule reduce_overlap_ok)
  have "R' = ?R"
    if "compute_overlap_and_atomic_orbitals isin S sphericals mol element_1 element_2
          = Inr (idx1, idx2, R')"
    for isin and sphericals and mol :: "'atom list" and element_1 element_2 R'
    using compute_overlap_reduced [OF that] r by simp
  with r show ?thesis by simp
qed

theorem reduced_overlap_witness:
  "2 < shape0 \<lparr>shape0 = 3, shape1 = 3, item = (\<lambda>i j. real (3 * i + j))\<rparr>
   \<and> 1 < shape1 \<lparr>shape0 = 3, shape1 = 3, item = (\<lambda>i j. real (3 * i + j))\<rparr>
   \<and> (\<exists>R. reduce_overlap \<lparr>shape0 = 3, shape1 = 3, item = (\<lambda>i j. real (3 * i + j))\<rparr> [2, 0] [1]
              = Inr R
          \<and> shape0 R = 2 \<and> shape1 R = 1 \<and> item R 0 0 = 7 \<and> item R 1 0 = 1)"
proof -
  let ?S = "\<lparr>shape0 = 3, shape1 = 3, item = (\<lambda>i j. real (3 * i + j))\<rparr>"
  have h1: "\<forall>i \<in> set [2, 0]. i < shape0 ?S" by simp
  have h2: "\<forall>j \<in> set [1]. j < shape1 ?S" by simp
  from reduced_overlap [OF h1 h2] obtain R where
    R: "reduce_overlap ?S [2, 0] [1] = Inr R" "shape0 R = length [2, 0 :: nat]"
       "shape1 R = length [1 :: nat]"
       "\<forall>a < length [2, 0 :: nat]. \<forall>b < length [1 :: nat].
           item R a b = item ?S ([2, 0] ! a) ([1] ! b)"
    by blast
  from R(4) have "item R 0 0 = 7" and "item R 1 0 = 1" by simp_all
  with R(1-3) show ?thesis by simp
qed

section \<open>The contraction\<close>

lemma gather_cases:
  "gather col ind = Inl IndexError \<or> gather col ind = Inr (map (\<lambda>i. col ! i) ind)"
  by (simp add: gather_def)

lemma gather_column:
  assumes "\<forall>i \<in> set ind. i < shape0 C"
  shows "gather (column C k) ind = Inr (map (\<lambda>i. item C i k) ind)"
proof -
  have "\<not> (\<exists>i \<in> set ind. length (column C k) \<le> i)"
    using assms by (auto simp: column_def not_le)
  moreover have "map (\<lambda>i. column C k ! i) ind = map (\<lambda>i. item C i k) ind"
    using assms by (intro map_cong) (simp_all add: column_def)
  ultimately show ?thesis by (simp add: gather_def)
qed

lemma broadcast_dim_same: "broadcast_dim d d = Some d"
  by (simp add: broadcast_dim_def)

lemma np_sum_multiply:
  assumes "shape0 A = shape0 B" and "shape1 A = shape1 B"
  shows "\<exists>M. multiply A B = Inr M
           \<and> np_sum M = (\<Sum>i<shape0 A. \<Sum>j<shape1 A. item A i j * item B i j)"
proof -
  let ?M = "\<lparr>shape0 = shape0 A, shape1 = shape1 A,
             item = (\<lambda>i j. item A (bidx (shape0 A) i) (bidx (shape1 A) j)
                          * item B (bidx (shape0 B) i) (bidx (shape1 B) j))\<rparr>"
  have m: "multiply A B = Inr ?M"
    using assms by (simp add: multiply_def broadcast_dim_same)
  have "np_sum ?M = (\<Sum>i<shape0 A. \<Sum>j<shape1 A. item A i j * item B i j)"
    unfolding np_sum_def using assms
    by (auto intro!: sum.cong simp: bidx_less)
  with m show ?thesis by blast
qed

lemma coop_func_ok:
  assumes "shape0 R = length idx1" and "shape1 R = length idx2"
    and "\<forall>i \<in> set idx1. i < shape0 C" and "\<forall>i \<in> set idx2. i < shape0 C"
  shows "coop_func (column C k) R idx1 idx2
         = Inr (\<Sum>a<length idx1. \<Sum>b<length idx2.
                  item C (idx1 ! a) k * item C (idx2 ! b) k * item R a b)"
proof -
  let ?c1 = "map (\<lambda>i. item C i k) idx1" and ?c2 = "map (\<lambda>i. item C i k) idx2"
  have s0: "shape0 (tensordot0 ?c1 ?c2) = shape0 R" and s1: "shape1 (tensordot0 ?c1 ?c2) = shape1 R"
    using assms(1,2) by (simp_all add: tensordot0_def)
  from np_sum_multiply [OF s0 s1] obtain M where
    M: "multiply (tensordot0 ?c1 ?c2) R = Inr M"
    and sM: "np_sum M = (\<Sum>i<shape0 (tensordot0 ?c1 ?c2). \<Sum>j<shape1 (tensordot0 ?c1 ?c2).
                            item (tensordot0 ?c1 ?c2) i j * item R i j)"
    by blast
  have "np_sum M = (\<Sum>a<length idx1. \<Sum>b<length idx2.
                      item C (idx1 ! a) k * item C (idx2 ! b) k * item R a b)"
    unfolding sM by (auto intro!: sum.cong simp: tensordot0_def)
  then show ?thesis
    by (simp add: coop_func_def gather_column [OF assms(3)] gather_column [OF assms(4)] M)
qed

lemma sequence_map_Inr: "sequence (map (\<lambda>k. Inr (f k)) ks) = Inr (map f ks)"
  by (induction ks) simp_all

text \<open>
  Claim C1, as amended. For a coefficient matrix with at least one column, index
  sequences within its rows and a reduced overlap matrix of shape \<open>len(idx1)\<close> by
  \<open>len(idx2)\<close>, \<^verbatim>\<open>compute_coop\<close> returns one value for each column, in the order of the
  columns, and value \<open>k\<close> is the sum over all \<open>(a, b)\<close> of
  \<open>C[idx1[a], k] * C[idx2[b], k] * R[a, b]\<close>.
\<close>

theorem coop_value:
  assumes "0 < shape1 C"
    and "shape0 R = length idx1" and "shape1 R = length idx2"
    and "\<forall>i \<in> set idx1. i < shape0 C" and "\<forall>i \<in> set idx2. i < shape0 C"
  shows "\<exists>coop. compute_coop C R idx1 idx2 = Inr coop
           \<and> length coop = shape1 C
           \<and> (\<forall>k < shape1 C.
                 coop ! k = (\<Sum>a<length idx1. \<Sum>b<length idx2.
                               item C (idx1 ! a) k * item C (idx2 ! b) k * item R a b))"
proof -
  let ?f = "\<lambda>k. (\<Sum>a<length idx1. \<Sum>b<length idx2.
                    item C (idx1 ! a) k * item C (idx2 ! b) k * item R a b)"
  have "compute_coop C R idx1 idx2 = sequence (map (\<lambda>k. Inr (?f k)) [0..<shape1 C])"
    using assms(1) by (simp add: compute_coop_def coop_func_ok [OF assms(2-5)])
  then have "compute_coop C R idx1 idx2 = Inr (map ?f [0..<shape1 C])"
    by (simp only: sequence_map_Inr)
  then show ?thesis by simp
qed

theorem coop_value_witness:
  "0 < shape1 \<lparr>shape0 = 2, shape1 = 2, item = (\<lambda>i j. [[1, 2], [3, 4 :: real]] ! i ! j)\<rparr>
   \<and> compute_coop \<lparr>shape0 = 2, shape1 = 2, item = (\<lambda>i j. [[1, 2], [3, 4 :: real]] ! i ! j)\<rparr>
                   \<lparr>shape0 = 1, shape1 = 1, item = (\<lambda>a b. 1 / 2)\<rparr> [0] [1] = Inr [3 / 2, 4]"
proof -
  let ?C = "\<lparr>shape0 = 2, shape1 = 2, item = (\<lambda>i j. [[1, 2], [3, 4 :: real]] ! i ! j)\<rparr>"
  let ?R = "\<lparr>shape0 = 1, shape1 = 1, item = (\<lambda>a b. 1 / 2 :: real)\<rparr>"
  have h1: "0 < shape1 ?C" by simp
  have h2: "shape0 ?R = length [0 :: nat]" and h3: "shape1 ?R = length [1 :: nat]" by simp_all
  have h4: "\<forall>i \<in> set [0]. i < shape0 ?C" and h5: "\<forall>i \<in> set [1]. i < shape0 ?C" by simp_all
  have ev: "compute_coop ?C ?R [0] [1] = Inr [3 / 2, 4]"
    by (simp add: compute_coop_def coop_func_def column_def gather_def multiply_def
          tensordot0_def broadcast_dim_def bidx_def np_sum_def upt_rec numeral_2_eq_2)
  from coop_value [OF h1 h2 h3 h4 h5] ev h1 show ?thesis by simp
qed

text \<open>
  The claim as first stated covers a coefficient matrix with no column, for which it
  promises the empty vector. There \<^verbatim>\<open>np.apply_along_axis\<close> raises ValueError.
\<close>

theorem coop_value_counterexample:
  "compute_coop \<lparr>shape0 = 1, shape1 = 0, item = (\<lambda>i j. 0)\<rparr>
                \<lparr>shape0 = 1, shape1 = 1, item = (\<lambda>i j. 1)\<rparr> [0] [0] = Inl ValueError
   \<and> compute_coop \<lparr>shape0 = 1, shape1 = 0, item = (\<lambda>i j. 0)\<rparr>
                \<lparr>shape0 = 1, shape1 = 1, item = (\<lambda>i j. 1)\<rparr> [0] [0] \<noteq> Inr []"
  by (simp add: compute_coop_def)

section \<open>Exchanging the two elements\<close>

lemma multiply_transpose:
  "(case multiply (tensordot0 c2 c1) (transpose_array R) of
      Inl e \<Rightarrow> Inl e | Inr M \<Rightarrow> Inr (np_sum M))
   = (case multiply (tensordot0 c1 c2) R of Inl e \<Rightarrow> Inl e | Inr M \<Rightarrow> Inr (np_sum M))"
proof (cases "broadcast_dim (length c1) (shape0 R)")
  case None
  then show ?thesis
    by (simp add: multiply_def tensordot0_def transpose_array_def split: option.splits)
next
  case m: (Some m)
  show ?thesis
  proof (cases "broadcast_dim (length c2) (shape1 R)")
    case None
    then show ?thesis
      by (simp add: multiply_def tensordot0_def transpose_array_def split: option.splits)
  next
    case n: (Some n)
    have "(\<Sum>i<n. \<Sum>j<m. c2 ! bidx (length c2) i * c1 ! bidx (length c1) j
               * item R (bidx (shape0 R) j) (bidx (shape1 R) i))
          = (\<Sum>j<m. \<Sum>i<n. c2 ! bidx (length c2) i * c1 ! bidx (length c1) j
               * item R (bidx (shape0 R) j) (bidx (shape1 R) i))"
      by (rule sum.swap)
    also have "\<dots> = (\<Sum>j<m. \<Sum>i<n. c1 ! bidx (length c1) j * c2 ! bidx (length c2) i
               * item R (bidx (shape0 R) j) (bidx (shape1 R) i))"
      by (simp add: mult.commute)
    finally show ?thesis
      using m n by (simp add: multiply_def tensordot0_def transpose_array_def np_sum_def)
  qed
qed

lemma coop_func_swap:
  "coop_func col (transpose_array R) idx2 idx1 = coop_func col R idx1 idx2"
proof -
  from gather_cases [of col idx1] gather_cases [of col idx2] show ?thesis
  proof (elim disjE)
    assume "gather col idx1 = Inr (map (\<lambda>i. col ! i) idx1)"
      and "gather col idx2 = Inr (map (\<lambda>i. col ! i) idx2)"
    then show ?thesis by (simp add: coop_func_def multiply_transpose)
  qed (simp_all add: coop_func_def)
qed

text \<open>
  Claim C8. Exchanging the two index sequences and transposing the reduced overlap
  matrix gives the same result of \<^verbatim>\<open>compute_coop\<close>, for every coefficient matrix, every
  reduced overlap matrix and every pair of index sequences: the same COOP vector, or
  the same exception where the call fails. The equality is exact in real arithmetic.
\<close>

theorem coop_swap:
  "compute_coop C (transpose_array R) idx2 idx1 = compute_coop C R idx1 idx2"
  by (simp add: compute_coop_def coop_func_swap)

theorem coop_swap_witness:
  "compute_coop \<lparr>shape0 = 3, shape1 = 1, item = (\<lambda>i j. [[1], [2], [3 :: real]] ! i ! j)\<rparr>
     (transpose_array \<lparr>shape0 = 1, shape1 = 2, item = (\<lambda>a b. [[5, 7 :: real]] ! a ! b)\<rparr>)
     [1, 2] [0] = Inr [31]
   \<and> compute_coop \<lparr>shape0 = 3, shape1 = 1, item = (\<lambda>i j. [[1], [2], [3 :: real]] ! i ! j)\<rparr>
     \<lparr>shape0 = 1, shape1 = 2, item = (\<lambda>a b. [[5, 7 :: real]] ! a ! b)\<rparr>
     [0] [1, 2] = Inr [31]"
proof -
  let ?C = "\<lparr>shape0 = 3, shape1 = 1, item = (\<lambda>i j. [[1], [2], [3 :: real]] ! i ! j)\<rparr>"
  let ?R = "\<lparr>shape0 = 1, shape1 = 2, item = (\<lambda>a b. [[5, 7 :: real]] ! a ! b)\<rparr>"
  have "compute_coop ?C ?R [0] [1, 2] = Inr [31]"
    by (simp add: compute_coop_def coop_func_def column_def gather_def multiply_def
          tensordot0_def broadcast_dim_def bidx_def np_sum_def upt_rec lessThan_Suc
          numeral_2_eq_2)
  with coop_swap [of ?C ?R "[1, 2]" "[0]"] show ?thesis by simp
qed


section \<open>The element selector\<close>

lemma str_in_sublist: "str_in a b = sublist a b"
  by (induction b) (simp_all add: sublist_Cons_right)

lemma str_in_iff: "str_in a b \<longleftrightarrow> (\<exists>ps ss. b = ps @ a @ ss)"
  by (simp add: str_in_sublist sublist_def)

lemma element_index_filter:
  "element_index isin mol e = filter (\<lambda>i. isin (lower e) (mol ! i)) [0..<length mol]"
proof (induction mol rule: rev_induct)
  case Nil
  show ?case by (simp add: element_index_def)
next
  case (snoc x xs)
  have "filter (\<lambda>i. isin (lower e) ((xs @ [x]) ! i)) [0..<length xs]
        = filter (\<lambda>i. isin (lower e) (xs ! i)) [0..<length xs]"
    by (rule filter_cong) (simp_all add: nth_append)
  with snoc show ?case
    by (simp add: element_index_def enumerate_append_eq)
qed

lemma set_element_index:
  "i \<in> set (element_index isin mol e) \<longleftrightarrow> i < length mol \<and> isin (lower e) (mol ! i)"
  by (auto simp: element_index_filter)

lemma length_concat_uniform:
  "\<forall>r \<in> set rs. length r = s \<Longrightarrow> length (concat rs) = length rs * s"
  by (induction rs) simp_all

lemma orbital_ind_char:
  assumes "\<forall>i \<in> set idx. i < length sph \<and> i < length off"
  shows "orbital_ind sph off idx =
           (if idx = [] then Inl IndexError
            else if \<exists>i \<in> set idx. sph ! i \<noteq> sph ! hd idx then Inl ValueError
            else Inr (concat (map (\<lambda>i. [off ! i..<off ! i + sph ! i]) idx)))"
proof (cases idx)
  case Nil
  then show ?thesis by (simp add: orbital_ind_def)
next
  case (Cons i0 rest)
  let ?ranges = "map (\<lambda>i. map (\<lambda>j. j + off ! i) (arange (sph ! i))) idx"
  have nb: "\<not> (\<exists>i \<in> set idx. length sph \<le> i \<or> length off \<le> i)"
    using assms by (auto simp: not_le)
  have rg: "?ranges = map (\<lambda>i. [off ! i..<off ! i + sph ! i]) idx"
    by (simp add: arange_def map_add_upt add.commute)
  have hd: "length (hd ?ranges) = sph ! i0"
    using Cons by (simp add: arange_def)
  have rag: "(\<exists>r \<in> set ?ranges. length r \<noteq> length (hd ?ranges))
             \<longleftrightarrow> (\<exists>i \<in> set idx. sph ! i \<noteq> sph ! i0)"
    unfolding hd by (auto simp: arange_def)
  show ?thesis
  proof (cases "\<exists>i \<in> set idx. sph ! i \<noteq> sph ! i0")
    case True
    have "\<exists>r \<in> set ?ranges. length r \<noteq> length (hd ?ranges)"
      unfolding rag by (rule True)
    then have "orbital_ind sph off idx = Inl ValueError"
      unfolding orbital_ind_def using nb Cons by (simp add: Let_def)
    with True Cons show ?thesis by simp
  next
    case False
    have r1: "\<not> (\<exists>r \<in> set ?ranges. length r \<noteq> length (hd ?ranges))"
      unfolding rag by (rule False)
    from False have "\<forall>r \<in> set ?ranges. length r = sph ! i0"
      by (auto simp: arange_def)
    then have "length (concat ?ranges) = length ?ranges * sph ! i0"
      by (rule length_concat_uniform)
    then have r2: "length (concat ?ranges) = length idx * sph ! i0" by simp
    have "orbital_ind sph off idx = Inr (concat ?ranges)"
      unfolding orbital_ind_def using nb Cons r1 r2 by (simp add: Let_def)
    then have res: "orbital_ind sph off idx
                    = Inr (concat (map (\<lambda>i. [off ! i..<off ! i + sph ! i]) idx))"
      by (simp only: rg)
    have ne: "idx \<noteq> []" and hdi: "hd idx = i0" using Cons by simp_all
    have "\<not> (\<exists>i \<in> set idx. sph ! i \<noteq> sph ! hd idx)"
      unfolding hdi by (rule False)
    then show ?thesis by (simp only: res ne if_False)
  qed
qed


lemma sum_list_take_le: "sum_list (take k xs) \<le> sum_list (xs :: nat list)"
proof -
  have "sum_list xs = sum_list (take k xs) + sum_list (drop k xs)"
    by (metis append_take_drop_id sum_list_append)
  then show ?thesis by simp
qed

lemma element_index_bound: "i \<in> set (element_index isin mol e) \<Longrightarrow> i < length mol"
  by (simp add: set_element_index)

lemma orbital_ind_element:
  assumes "length sph = length mol"
  shows "orbital_ind sph (0 # cumsum sph) (element_index isin mol e) =
           (if element_index isin mol e = [] then Inl IndexError
            else if \<exists>i \<in> set (element_index isin mol e). sph ! i \<noteq> sph ! hd (element_index isin mol e)
            then Inl ValueError
            else Inr (concat (map (\<lambda>i. [sum_list (take i sph)..<sum_list (take i sph) + sph ! i])
                               (element_index isin mol e))))"
proof -
  let ?I = "element_index isin mol e" and ?off = "0 # cumsum sph"
  have b: "\<forall>i \<in> set ?I. i < length sph \<and> i < length ?off"
    using assms by (auto simp: cumsum_def length_cumsum_from dest: element_index_bound)
  have "map (\<lambda>i. [?off ! i..<?off ! i + sph ! i]) ?I
        = map (\<lambda>i. [sum_list (take i sph)..<sum_list (take i sph) + sph ! i]) ?I"
  proof (rule map_cong [OF refl])
    fix i assume "i \<in> set ?I"
    with b have "i \<le> length sph" by auto
    then have "?off ! i = sum_list (take i sph)" by (rule nth_offsets)
    then show "[?off ! i..<?off ! i + sph ! i]
               = [sum_list (take i sph)..<sum_list (take i sph) + sph ! i]"
      by (simp only:)
  qed
  then show ?thesis
    by (simp only: orbital_ind_char [OF b])
qed

lemma compute_unfold:
  assumes "length sph = length mol"
  shows "compute_overlap_and_atomic_orbitals isin S sph mol e1 e2 =
     (case orbital_ind sph (0 # cumsum sph) (element_index isin mol e1) of
        Inl e \<Rightarrow> Inl e
      | Inr a \<Rightarrow>
         (case orbital_ind sph (0 # cumsum sph) (element_index isin mol e2) of
            Inl e \<Rightarrow> Inl e
          | Inr b \<Rightarrow>
             (case reduce_overlap S a b of Inl e \<Rightarrow> Inl e | Inr R \<Rightarrow> Inr (a, b, R))))"
  by (simp add: compute_overlap_and_atomic_orbitals_def atom_indices_eq [OF assms] Let_def)

lemma flat_bound:
  assumes "\<forall>i \<in> set I. i < length sph"
    and "p \<in> set (concat (map (\<lambda>i. [sum_list (take i sph)..<sum_list (take i sph) + sph ! i]) I))"
  shows "p < sum_list sph"
proof -
  from assms(2) obtain i where i: "i \<in> set I"
    and p: "p < sum_list (take i sph) + sph ! i" by auto
  from i assms(1) have "i < length sph" by simp
  then have "sum_list (take i sph) + sph ! i = sum_list (take (Suc i) sph)"
    by (simp add: sum_list_take_Suc)
  also have "\<dots> \<le> sum_list sph" by (rule sum_list_take_le)
  finally show ?thesis using p by simp
qed

lemma mixed_iff:
  assumes "I \<noteq> []"
  shows "(\<exists>i \<in> set I. \<exists>j \<in> set I. (sph :: nat list) ! i \<noteq> sph ! j)
         \<longleftrightarrow> (\<exists>i \<in> set I. sph ! i \<noteq> sph ! hd I)"
proof
  assume "\<exists>i \<in> set I. \<exists>j \<in> set I. sph ! i \<noteq> sph ! j"
  then obtain i j where "i \<in> set I" "j \<in> set I" "sph ! i \<noteq> sph ! j" by blast
  then have "sph ! i \<noteq> sph ! hd I \<or> sph ! j \<noteq> sph ! hd I" by auto
  with \<open>i \<in> set I\<close> \<open>j \<in> set I\<close> show "\<exists>i \<in> set I. sph ! i \<noteq> sph ! hd I" by blast
next
  assume "\<exists>i \<in> set I. sph ! i \<noteq> sph ! hd I"
  moreover have "hd I \<in> set I" using assms by simp
  ultimately show "\<exists>i \<in> set I. \<exists>j \<in> set I. sph ! i \<noteq> sph ! j" by blast
qed

text \<open>
  The whole of \<^verbatim>\<open>compute_overlap_and_atomic_orbitals\<close> as a chain of decisions, for an
  input with one orbital count for each atom: the first element is examined before the
  second, an empty match before unequal counts.
\<close>

lemma compute_char:
  assumes "length sph = length mol"
  shows "compute_overlap_and_atomic_orbitals isin S sph mol e1 e2 =
     (if element_index isin mol e1 = [] then Inl IndexError
      else if \<exists>i \<in> set (element_index isin mol e1). sph ! i \<noteq> sph ! hd (element_index isin mol e1)
      then Inl ValueError
      else if element_index isin mol e2 = [] then Inl IndexError
      else if \<exists>i \<in> set (element_index isin mol e2). sph ! i \<noteq> sph ! hd (element_index isin mol e2)
      then Inl ValueError
      else
        (case reduce_overlap S
                (concat (map (\<lambda>i. [sum_list (take i sph)..<sum_list (take i sph) + sph ! i])
                          (element_index isin mol e1)))
                (concat (map (\<lambda>i. [sum_list (take i sph)..<sum_list (take i sph) + sph ! i])
                          (element_index isin mol e2))) of
           Inl e \<Rightarrow> Inl e
         | Inr R \<Rightarrow>
             Inr (concat (map (\<lambda>i. [sum_list (take i sph)..<sum_list (take i sph) + sph ! i])
                            (element_index isin mol e1)),
                  concat (map (\<lambda>i. [sum_list (take i sph)..<sum_list (take i sph) + sph ! i])
                            (element_index isin mol e2)), R)))"
  (is "?lhs = (if ?E1 then _ else if ?M1 then _ else if ?E2 then _ else if ?M2 then _ else ?last)")
proof -
  note o1 = orbital_ind_element [OF assms, of isin e1]
  note o2 = orbital_ind_element [OF assms, of isin e2]
  note u = compute_unfold [OF assms, of isin S e1 e2]
  show ?thesis
  proof (cases ?E1)
    case True
    have "orbital_ind sph (0 # cumsum sph) (element_index isin mol e1) = Inl IndexError"
      by (simp only: o1 if_P [OF True])
    then have "?lhs = Inl IndexError" unfolding u by (simp only: sum.case)
    then show ?thesis by (simp only: if_P [OF True])
  next
    case ne1: False
    show ?thesis
    proof (cases ?M1)
      case True
      have "orbital_ind sph (0 # cumsum sph) (element_index isin mol e1) = Inl ValueError"
        by (simp only: o1 if_not_P [OF ne1] if_P [OF True])
      then have "?lhs = Inl ValueError" unfolding u by (simp only: sum.case)
      then show ?thesis by (simp only: if_not_P [OF ne1] if_P [OF True])
    next
      case u1: False
      have r1: "orbital_ind sph (0 # cumsum sph) (element_index isin mol e1)
                = Inr (concat (map (\<lambda>i. [sum_list (take i sph)..<sum_list (take i sph) + sph ! i])
                            (element_index isin mol e1)))"
        by (simp only: o1 if_not_P [OF ne1] if_not_P [OF u1])
      show ?thesis
      proof (cases ?E2)
        case True
        have "orbital_ind sph (0 # cumsum sph) (element_index isin mol e2) = Inl IndexError"
          by (simp only: o2 if_P [OF True])
        then have "?lhs = Inl IndexError" unfolding u r1 by (simp only: sum.case)
        then show ?thesis
          by (simp only: if_not_P [OF ne1] if_not_P [OF u1] if_P [OF True])
      next
        case ne2: False
        show ?thesis
        proof (cases ?M2)
          case True
          have "orbital_ind sph (0 # cumsum sph) (element_index isin mol e2) = Inl ValueError"
            by (simp only: o2 if_not_P [OF ne2] if_P [OF True])
          then have "?lhs = Inl ValueError" unfolding u r1 by (simp only: sum.case)
          then show ?thesis
            by (simp only: if_not_P [OF ne1] if_not_P [OF u1] if_not_P [OF ne2] if_P [OF True])
        next
          case u2: False
          have r2: "orbital_ind sph (0 # cumsum sph) (element_index isin mol e2)
                = Inr (concat (map (\<lambda>i. [sum_list (take i sph)..<sum_list (take i sph) + sph ! i])
                            (element_index isin mol e2)))"
            by (simp only: o2 if_not_P [OF ne2] if_not_P [OF u2])
          have "?lhs = ?last" unfolding u r1 r2 by (simp only: sum.case)
          then show ?thesis
            by (simp only: if_not_P [OF ne1] if_not_P [OF u1] if_not_P [OF ne2] if_not_P [OF u2])
        qed
      qed
    qed
  qed
qed

lemma compute_success:
  assumes "length sph = length mol"
    and "element_index isin mol e1 \<noteq> []" and "element_index isin mol e2 \<noteq> []"
    and "\<forall>a \<in> set (element_index isin mol e1). sph ! a = sph ! hd (element_index isin mol e1)"
    and "\<forall>a \<in> set (element_index isin mol e2). sph ! a = sph ! hd (element_index isin mol e2)"
    and "sum_list sph \<le> shape0 S" and "sum_list sph \<le> shape1 S"
  shows "compute_overlap_and_atomic_orbitals isin S sph mol e1 e2
           = Inr (concat (map (\<lambda>i. [sum_list (take i sph)..<sum_list (take i sph) + sph ! i])
                          (element_index isin mol e1)),
                  concat (map (\<lambda>i. [sum_list (take i sph)..<sum_list (take i sph) + sph ! i])
                          (element_index isin mol e2)),
                  \<lparr>shape0 = length (concat (map (\<lambda>i. [sum_list (take i sph)..<sum_list (take i sph) + sph ! i])
                                            (element_index isin mol e1))),
                   shape1 = length (concat (map (\<lambda>i. [sum_list (take i sph)..<sum_list (take i sph) + sph ! i])
                                            (element_index isin mol e2))),
                   item = (\<lambda>a b. item S
                     (concat (map (\<lambda>i. [sum_list (take i sph)..<sum_list (take i sph) + sph ! i])
                                (element_index isin mol e1)) ! a)
                     (concat (map (\<lambda>i. [sum_list (take i sph)..<sum_list (take i sph) + sph ! i])
                                (element_index isin mol e2)) ! b))\<rparr>)"
proof -
  let ?I1 = "element_index isin mol e1" and ?I2 = "element_index isin mol e2"
  let ?flat = "\<lambda>I. concat (map (\<lambda>i. [sum_list (take i sph)..<sum_list (take i sph) + sph ! i]) I)"
  have n1: "\<not> (\<exists>i \<in> set ?I1. sph ! i \<noteq> sph ! hd ?I1)" using assms(4) by blast
  have n2: "\<not> (\<exists>i \<in> set ?I2. sph ! i \<noteq> sph ! hd ?I2)" using assms(5) by blast
  have b1: "\<forall>i \<in> set ?I1. i < length sph" and b2: "\<forall>i \<in> set ?I2. i < length sph"
    using assms(1) by (auto dest: element_index_bound)
  have r1: "\<forall>p \<in> set (?flat ?I1). p < shape0 S"
    using flat_bound [OF b1] assms(6) by fastforce
  have r2: "\<forall>p \<in> set (?flat ?I2). p < shape1 S"
    using flat_bound [OF b2] assms(7) by fastforce
  note ro = reduce_overlap_ok [OF r1 r2]
  show ?thesis
    by (simp only: compute_char [OF assms(1)] if_not_P [OF assms(2)] if_not_P [OF n1]
          if_not_P [OF assms(3)] if_not_P [OF n2] ro sum.case)
qed

lemma compute_Inr:
  assumes "length sph = length mol"
    and "compute_overlap_and_atomic_orbitals isin S sph mol e1 e2 = Inr (idx1, idx2, R)"
  shows "idx1 = concat (map (\<lambda>i. [sum_list (take i sph)..<sum_list (take i sph) + sph ! i])
                          (element_index isin mol e1))
         \<and> idx2 = concat (map (\<lambda>i. [sum_list (take i sph)..<sum_list (take i sph) + sph ! i])
                          (element_index isin mol e2))"
proof -
  let ?I1 = "element_index isin mol e1" and ?I2 = "element_index isin mol e2"
  let ?flat = "\<lambda>I. concat (map (\<lambda>i. [sum_list (take i sph)..<sum_list (take i sph) + sph ! i]) I)"
  note c = compute_char [OF assms(1), of isin S e1 e2]
  have ne1: "?I1 \<noteq> []"
  proof
    assume e: "?I1 = []"
    have "compute_overlap_and_atomic_orbitals isin S sph mol e1 e2 = Inl IndexError"
      by (simp only: c if_P [OF e])
    with assms(2) show False by simp
  qed
  have n1: "\<not> (\<exists>i \<in> set ?I1. sph ! i \<noteq> sph ! hd ?I1)"
  proof
    assume m: "\<exists>i \<in> set ?I1. sph ! i \<noteq> sph ! hd ?I1"
    have "compute_overlap_and_atomic_orbitals isin S sph mol e1 e2 = Inl ValueError"
      by (simp only: c if_not_P [OF ne1] if_P [OF m])
    with assms(2) show False by simp
  qed
  have ne2: "?I2 \<noteq> []"
  proof
    assume e: "?I2 = []"
    have "compute_overlap_and_atomic_orbitals isin S sph mol e1 e2 = Inl IndexError"
      by (simp only: c if_not_P [OF ne1] if_not_P [OF n1] if_P [OF e])
    with assms(2) show False by simp
  qed
  have n2: "\<not> (\<exists>i \<in> set ?I2. sph ! i \<noteq> sph ! hd ?I2)"
  proof
    assume m: "\<exists>i \<in> set ?I2. sph ! i \<noteq> sph ! hd ?I2"
    have "compute_overlap_and_atomic_orbitals isin S sph mol e1 e2 = Inl ValueError"
      by (simp only: c if_not_P [OF ne1] if_not_P [OF n1] if_not_P [OF ne2] if_P [OF m])
    with assms(2) show False by simp
  qed
  have l: "compute_overlap_and_atomic_orbitals isin S sph mol e1 e2
           = (case reduce_overlap S (?flat ?I1) (?flat ?I2) of
                Inl e \<Rightarrow> Inl e | Inr R \<Rightarrow> Inr (?flat ?I1, ?flat ?I2, R))"
    by (simp only: c if_not_P [OF ne1] if_not_P [OF n1] if_not_P [OF ne2] if_not_P [OF n2])
  show ?thesis
  proof (cases "reduce_overlap S (?flat ?I1) (?flat ?I2)")
    case (Inl e)
    have "compute_overlap_and_atomic_orbitals isin S sph mol e1 e2 = Inl e"
      by (simp only: l Inl sum.case)
    with assms(2) show ?thesis by simp
  next
    case (Inr R0)
    have "compute_overlap_and_atomic_orbitals isin S sph mol e1 e2 = Inr (?flat ?I1, ?flat ?I2, R0)"
      by (simp only: l Inr sum.case)
    with assms(2) have "Inr (idx1, idx2, R) = (Inr (?flat ?I1, ?flat ?I2, R0) :: error + _)"
      by (simp only:)
    then show ?thesis by (simp only: sum.inject prod.inject)
  qed
qed

lemma range_in_flat: "i \<in> set I \<Longrightarrow> set (f i) \<subseteq> set (concat (map f I))"
  by auto

lemma atom_contains_lower:
  assumes "lower (label a) = label a"
  shows "atom_contains (lower e) a \<longleftrightarrow> (\<exists>ps ss. lower (label a) = ps @ lower e @ ss)"
  by (simp only: atom_contains_def str_in_iff assms)

lemma element_index_atoms:
  assumes "\<forall>a \<in> set mol. lower (label a) = label a"
  shows "element_index atom_contains mol e
         = filter (\<lambda>i. \<exists>ps ss. lower (label (mol ! i)) = ps @ lower e @ ss) [0..<length mol]"
proof -
  have "filter (\<lambda>i. atom_contains (lower e) (mol ! i)) [0..<length mol]
        = filter (\<lambda>i. \<exists>ps ss. lower (label (mol ! i)) = ps @ lower e @ ss) [0..<length mol]"
  proof (rule filter_cong [OF refl])
    fix i assume "i \<in> set [0..<length mol]"
    then have "mol ! i \<in> set mol" by simp
    with assms have "lower (label (mol ! i)) = label (mol ! i)" by blast
    then show "atom_contains (lower e) (mol ! i)
               \<longleftrightarrow> (\<exists>ps ss. lower (label (mol ! i)) = ps @ lower e @ ss)"
      by (rule atom_contains_lower)
  qed
  then show ?thesis by (simp only: element_index_filter)
qed

lemma compute_coop_ok:
  assumes "0 < shape1 C"
    and "shape0 R = length idx1" and "shape1 R = length idx2"
    and "\<forall>i \<in> set idx1. i < shape0 C" and "\<forall>i \<in> set idx2. i < shape0 C"
  shows "compute_coop C R idx1 idx2
         = Inr (map (\<lambda>k. \<Sum>a<length idx1. \<Sum>b<length idx2.
                            item C (idx1 ! a) k * item C (idx2 ! b) k * item R a b)
                    [0..<shape1 C])"
proof -
  have "compute_coop C R idx1 idx2
        = sequence (map (\<lambda>k. Inr (\<Sum>a<length idx1. \<Sum>b<length idx2.
                            item C (idx1 ! a) k * item C (idx2 ! b) k * item R a b))
                        [0..<shape1 C])"
    using assms(1) by (simp add: compute_coop_def coop_func_ok [OF assms(2-5)])
  then show ?thesis by (simp only: sequence_map_Inr)
qed

lemma contains_lower:
  assumes "b = ps @ a @ ss"
  shows "\<exists>ps' ss'. lower b = ps' @ lower a @ ss'"
proof -
  have "lower b = lower ps @ lower a @ lower ss" unfolding assms by (simp add: lower_def)
  then show ?thesis by blast
qed

lemmas selector_eval =
  compute_overlap_and_atomic_orbitals_def element_index_def atom_contains_def lower_def
  lower_char_def enumerate_eq_zip upt_rec atom_indices_def cumsum_def orbital_ind_def
  arange_def reduce_overlap_def take_rows_def take_cols_def Let_def

text \<open>
  Claim C3, as amended. When the atoms matched by one of the two labels do not all have
  the same number of orbitals, the function fails and returns no index set. The
  exception is the one NumPy raises, ValueError, or IndexError when the first label
  matches no atom at all; it is never ConfigurationError, which the source does not
  define. This holds whatever the test \<^verbatim>\<open>in\<close> of the atom type is.
\<close>

theorem mixed_sphericals:
  assumes "length sph = length mol"
    and "(\<exists>i \<in> set (element_index isin mol e1). \<exists>j \<in> set (element_index isin mol e1).
            sph ! i \<noteq> sph ! j)
         \<or> (\<exists>i \<in> set (element_index isin mol e2). \<exists>j \<in> set (element_index isin mol e2).
            sph ! i \<noteq> sph ! j)"
  shows "compute_overlap_and_atomic_orbitals isin S sph mol e1 e2
           = Inl (if element_index isin mol e1 = [] then IndexError else ValueError)
         \<and> compute_overlap_and_atomic_orbitals isin S sph mol e1 e2 \<noteq> Inl ConfigurationError"
proof -
  let ?I1 = "element_index isin mol e1" and ?I2 = "element_index isin mol e2"
  note c = compute_char [OF assms(1), of isin S e1 e2]
  have r: "compute_overlap_and_atomic_orbitals isin S sph mol e1 e2
          = Inl (if ?I1 = [] then IndexError else ValueError)"
  proof (cases "?I1 = []")
    case True
    show ?thesis by (simp only: c if_P [OF True])
  next
    case ne1: False
    show ?thesis
    proof (cases "\<exists>i \<in> set ?I1. sph ! i \<noteq> sph ! hd ?I1")
      case True
      show ?thesis by (simp only: c if_not_P [OF ne1] if_P [OF True])
    next
      case u1: False
      have "\<not> (\<exists>i \<in> set ?I1. \<exists>j \<in> set ?I1. sph ! i \<noteq> sph ! j)"
        unfolding mixed_iff [OF ne1] by (rule u1)
      with assms(2) have m2: "\<exists>i \<in> set ?I2. \<exists>j \<in> set ?I2. sph ! i \<noteq> sph ! j" by blast
      then have ne2: "?I2 \<noteq> []" by auto
      have M2: "\<exists>i \<in> set ?I2. sph ! i \<noteq> sph ! hd ?I2"
        using m2 unfolding mixed_iff [OF ne2] .
      show ?thesis
        by (simp only: c if_not_P [OF ne1] if_not_P [OF u1] if_not_P [OF ne2] if_P [OF M2])
    qed
  qed
  have "Inl (if ?I1 = [] then IndexError else ValueError)
        \<noteq> (Inl ConfigurationError :: error + nat list \<times> nat list \<times> array2)"
    by simp
  with r show ?thesis by (simp only: simp_thms)
qed

theorem mixed_sphericals_witness:
  "element_index atom_contains
     [\<lparr>label = ''cd'', coordinates = (0, 0, 0)\<rparr>, \<lparr>label = ''se'', coordinates = (1, 0, 0)\<rparr>,
      \<lparr>label = ''cd'', coordinates = (2, 0, 0)\<rparr>] ''Cd'' = [0, 2]
   \<and> [1, 2, 2 :: nat] ! 0 \<noteq> [1, 2, 2] ! 2
   \<and> compute_overlap_and_atomic_orbitals atom_contains
        \<lparr>shape0 = 5, shape1 = 5, item = (\<lambda>i j. 1)\<rparr> [1, 2, 2]
        [\<lparr>label = ''cd'', coordinates = (0, 0, 0)\<rparr>, \<lparr>label = ''se'', coordinates = (1, 0, 0)\<rparr>,
         \<lparr>label = ''cd'', coordinates = (2, 0, 0)\<rparr>] ''Cd'' ''Se'' = Inl ValueError"
proof -
  let ?mol = "[\<lparr>label = ''cd'', coordinates = (0, 0, 0)\<rparr>,
               \<lparr>label = ''se'', coordinates = (1, 0, 0)\<rparr>,
               \<lparr>label = ''cd'', coordinates = (2, 0, 0)\<rparr>]"
  let ?sph = "[1, 2, 2 :: nat]"
  have ei: "element_index atom_contains ?mol ''Cd'' = [0, 2]"
    by (simp add: element_index_def atom_contains_def lower_def lower_char_def
          enumerate_eq_zip upt_rec)
  have h1: "length ?sph = length ?mol" by simp
  have "\<exists>i \<in> set (element_index atom_contains ?mol ''Cd'').
          \<exists>j \<in> set (element_index atom_contains ?mol ''Cd''). ?sph ! i \<noteq> ?sph ! j"
    unfolding ei by (intro bexI [of _ 0] bexI [of _ 2]) simp_all
  then have h2: "(\<exists>i \<in> set (element_index atom_contains ?mol ''Cd'').
                    \<exists>j \<in> set (element_index atom_contains ?mol ''Cd''). ?sph ! i \<noteq> ?sph ! j)
            \<or> (\<exists>i \<in> set (element_index atom_contains ?mol ''Se'').
                    \<exists>j \<in> set (element_index atom_contains ?mol ''Se''). ?sph ! i \<noteq> ?sph ! j)"
    by (rule disjI1)
  from mixed_sphericals [OF h1 h2, of "\<lparr>shape0 = 5, shape1 = 5, item = (\<lambda>i j. 1)\<rparr>"]
  have "compute_overlap_and_atomic_orbitals atom_contains
          \<lparr>shape0 = 5, shape1 = 5, item = (\<lambda>i j. 1)\<rparr>
          ?sph ?mol ''Cd'' ''Se'' = Inl (if [0, 2 :: nat] = [] then IndexError else ValueError)"
    unfolding ei by (rule conjunct1)
  then show ?thesis by (simp add: ei)
qed

text \<open>
  The claim as first stated names ConfigurationError. Two atoms of the same label with
  one and two orbitals give ValueError.
\<close>

theorem mixed_sphericals_counterexample:
  "compute_overlap_and_atomic_orbitals atom_contains
     \<lparr>shape0 = 3, shape1 = 3, item = (\<lambda>i j. 1)\<rparr> [1, 2]
     [\<lparr>label = ''cd'', coordinates = (0, 0, 0)\<rparr>, \<lparr>label = ''cd'', coordinates = (1, 0, 0)\<rparr>]
     ''cd'' ''cd'' = Inl ValueError
   \<and> compute_overlap_and_atomic_orbitals atom_contains
     \<lparr>shape0 = 3, shape1 = 3, item = (\<lambda>i j. 1)\<rparr> [1, 2]
     [\<lparr>label = ''cd'', coordinates = (0, 0, 0)\<rparr>, \<lparr>label = ''cd'', coordinates = (1, 0, 0)\<rparr>]
     ''cd'' ''cd'' \<noteq> Inl ConfigurationError"
  by (simp add: selector_eval)

text \<open>
  Claim C5, as amended. When one of the two labels matches no atom, the function fails
  with IndexError (the read of \<^verbatim>\<open>element_index[0]\<close>), or with ValueError when the atoms
  matched by the first label have unequal orbital counts, which is met first. It is
  never SelectionError, which the source does not define. This holds whatever the test
  \<^verbatim>\<open>in\<close> of the atom type is.
\<close>

theorem no_match:
  assumes "length sph = length mol"
    and "element_index isin mol e1 = [] \<or> element_index isin mol e2 = []"
  shows "compute_overlap_and_atomic_orbitals isin S sph mol e1 e2
           = Inl (if \<exists>i \<in> set (element_index isin mol e1).
                        \<exists>j \<in> set (element_index isin mol e1). sph ! i \<noteq> sph ! j
                  then ValueError else IndexError)
         \<and> compute_overlap_and_atomic_orbitals isin S sph mol e1 e2 \<noteq> Inl SelectionError"
proof -
  let ?I1 = "element_index isin mol e1" and ?I2 = "element_index isin mol e2"
  let ?P = "\<exists>i \<in> set ?I1. \<exists>j \<in> set ?I1. sph ! i \<noteq> sph ! j"
  note c = compute_char [OF assms(1), of isin S e1 e2]
  have r: "compute_overlap_and_atomic_orbitals isin S sph mol e1 e2
          = Inl (if ?P then ValueError else IndexError)"
  proof (cases "?I1 = []")
    case True
    then have np: "\<not> ?P" by simp
    show ?thesis by (simp only: c if_P [OF True] if_not_P [OF np])
  next
    case ne1: False
    with assms(2) have e2: "?I2 = []" by blast
    show ?thesis
    proof (cases "\<exists>i \<in> set ?I1. sph ! i \<noteq> sph ! hd ?I1")
      case True
      have p: ?P unfolding mixed_iff [OF ne1] by (rule True)
      show ?thesis by (simp only: c if_not_P [OF ne1] if_P [OF True] if_P [OF p])
    next
      case u1: False
      have np: "\<not> ?P" unfolding mixed_iff [OF ne1] by (rule u1)
      show ?thesis
        by (simp only: c if_not_P [OF ne1] if_not_P [OF u1] if_P [OF e2] if_not_P [OF np])
    qed
  qed
  have "Inl (if ?P then ValueError else IndexError)
        \<noteq> (Inl SelectionError :: error + nat list \<times> nat list \<times> array2)"
    by simp
  with r show ?thesis by (simp only: simp_thms)
qed

theorem no_match_witness:
  "element_index atom_contains
     [\<lparr>label = ''cd'', coordinates = (0, 0, 0)\<rparr>, \<lparr>label = ''se'', coordinates = (1, 0, 0)\<rparr>,
      \<lparr>label = ''cd'', coordinates = (2, 0, 0)\<rparr>] ''Te'' = []
   \<and> compute_overlap_and_atomic_orbitals atom_contains
        \<lparr>shape0 = 3, shape1 = 3, item = (\<lambda>i j. 1)\<rparr> [1, 1, 1]
        [\<lparr>label = ''cd'', coordinates = (0, 0, 0)\<rparr>, \<lparr>label = ''se'', coordinates = (1, 0, 0)\<rparr>,
         \<lparr>label = ''cd'', coordinates = (2, 0, 0)\<rparr>] ''Cd'' ''Te'' = Inl IndexError"
proof -
  let ?mol = "[\<lparr>label = ''cd'', coordinates = (0, 0, 0)\<rparr>,
               \<lparr>label = ''se'', coordinates = (1, 0, 0)\<rparr>,
               \<lparr>label = ''cd'', coordinates = (2, 0, 0)\<rparr>]"
  let ?sph = "[1, 1, 1 :: nat]"
  have e1: "element_index atom_contains ?mol ''Cd'' = [0, 2]"
    by (simp add: element_index_def atom_contains_def lower_def lower_char_def
          enumerate_eq_zip upt_rec)
  have e2: "element_index atom_contains ?mol ''Te'' = []"
    by (simp add: element_index_def atom_contains_def lower_def lower_char_def
          enumerate_eq_zip upt_rec)
  have h1: "length ?sph = length ?mol" by simp
  have h2: "element_index atom_contains ?mol ''Cd'' = []
            \<or> element_index atom_contains ?mol ''Te'' = []"
    by (simp add: e2)
  from no_match [OF h1 h2, of "\<lparr>shape0 = 3, shape1 = 3, item = (\<lambda>i j. 1)\<rparr>"] e2
  show ?thesis by (simp add: e1)
qed

text \<open>
  The claim as first stated names SelectionError. A second label that matches no atom
  gives IndexError.
\<close>

theorem no_match_counterexample:
  "compute_overlap_and_atomic_orbitals atom_contains
     \<lparr>shape0 = 2, shape1 = 2, item = (\<lambda>i j. 1)\<rparr> [1, 1]
     [\<lparr>label = ''cd'', coordinates = (0, 0, 0)\<rparr>, \<lparr>label = ''se'', coordinates = (1, 0, 0)\<rparr>]
     ''cd'' ''te'' = Inl IndexError
   \<and> compute_overlap_and_atomic_orbitals atom_contains
     \<lparr>shape0 = 2, shape1 = 2, item = (\<lambda>i j. 1)\<rparr> [1, 1]
     [\<lparr>label = ''cd'', coordinates = (0, 0, 0)\<rparr>, \<lparr>label = ''se'', coordinates = (1, 0, 0)\<rparr>]
     ''cd'' ''te'' \<noteq> Inl SelectionError"
  by (simp add: selector_eval)

text \<open>
  Claim C4. For an atom list whose stored labels are in lower case, with one orbital
  count for each atom, the indices collected for an element label are exactly the
  indices \<open>i\<close>, in the order of the atom list, such that the element label, case ignored,
  is a substring of atom label \<open>i\<close>. Whenever the function returns, the index sequence of
  each element is the concatenation, in the order of the matched atoms, of the ranges
  from \<open>offset[i]\<close> up to \<open>offset[i] + sphericals[i]\<close>, where \<open>offset[i]\<close> is the sum of the
  first \<open>i\<close> counts. It returns these sequences whenever each label matches some atom,
  the matched atoms of each label have equal counts, and the sum of all counts is within
  the overlap matrix: outside these conditions the specification asks for a failure.
\<close>

theorem element_selector:
  assumes "length sph = length mol"
    and "\<forall>a \<in> set mol. lower (label a) = label a"
  shows "element_index atom_contains mol e1
           = filter (\<lambda>i. \<exists>ps ss. lower (label (mol ! i)) = ps @ lower e1 @ ss) [0..<length mol]
         \<and> (\<forall>idx1 idx2 R.
               compute_overlap_and_atomic_orbitals atom_contains S sph mol e1 e2
                 = Inr (idx1, idx2, R) \<longrightarrow>
                 idx1 = concat (map (\<lambda>i. [sum_list (take i sph)..<sum_list (take i sph) + sph ! i])
                                  (element_index atom_contains mol e1))
                 \<and> idx2 = concat (map (\<lambda>i. [sum_list (take i sph)..<sum_list (take i sph) + sph ! i])
                                  (element_index atom_contains mol e2)))
         \<and> (element_index atom_contains mol e1 \<noteq> [] \<and> element_index atom_contains mol e2 \<noteq> []
              \<and> (\<forall>a \<in> set (element_index atom_contains mol e1).
                    sph ! a = sph ! hd (element_index atom_contains mol e1))
              \<and> (\<forall>a \<in> set (element_index atom_contains mol e2).
                    sph ! a = sph ! hd (element_index atom_contains mol e2))
              \<and> sum_list sph \<le> shape0 S \<and> sum_list sph \<le> shape1 S
            \<longrightarrow> (\<exists>R.
                  compute_overlap_and_atomic_orbitals atom_contains S sph mol e1 e2
                    = Inr (concat (map (\<lambda>i. [sum_list (take i sph)..<sum_list (take i sph) + sph ! i])
                                    (element_index atom_contains mol e1)),
                           concat (map (\<lambda>i. [sum_list (take i sph)..<sum_list (take i sph) + sph ! i])
                                    (element_index atom_contains mol e2)), R)))"
proof (intro conjI allI impI)
  show "element_index atom_contains mol e1
          = filter (\<lambda>i. \<exists>ps ss. lower (label (mol ! i)) = ps @ lower e1 @ ss) [0..<length mol]"
    using assms(2) by (rule element_index_atoms)
next
  fix idx1 idx2 R
  assume r: "compute_overlap_and_atomic_orbitals atom_contains S sph mol e1 e2
               = Inr (idx1, idx2, R)"
  from compute_Inr [OF assms(1) r]
  show "idx1 = concat (map (\<lambda>i. [sum_list (take i sph)..<sum_list (take i sph) + sph ! i])
                             (element_index atom_contains mol e1))"
    and "idx2 = concat (map (\<lambda>i. [sum_list (take i sph)..<sum_list (take i sph) + sph ! i])
                             (element_index atom_contains mol e2))"
    by blast+
next
  assume h: "element_index atom_contains mol e1 \<noteq> [] \<and> element_index atom_contains mol e2 \<noteq> []
          \<and> (\<forall>a \<in> set (element_index atom_contains mol e1).
                sph ! a = sph ! hd (element_index atom_contains mol e1))
          \<and> (\<forall>a \<in> set (element_index atom_contains mol e2).
                sph ! a = sph ! hd (element_index atom_contains mol e2))
          \<and> sum_list sph \<le> shape0 S \<and> sum_list sph \<le> shape1 S"
  then have h1: "element_index atom_contains mol e1 \<noteq> []"
    and h2: "element_index atom_contains mol e2 \<noteq> []"
    and h3: "\<forall>a \<in> set (element_index atom_contains mol e1).
               sph ! a = sph ! hd (element_index atom_contains mol e1)"
    and h4: "\<forall>a \<in> set (element_index atom_contains mol e2).
               sph ! a = sph ! hd (element_index atom_contains mol e2)"
    and h5: "sum_list sph \<le> shape0 S" and h6: "sum_list sph \<le> shape1 S"
    by blast+
  from compute_success [OF assms(1) h1 h2 h3 h4 h5 h6]
  show "\<exists>R. compute_overlap_and_atomic_orbitals atom_contains S sph mol e1 e2
               = Inr (concat (map (\<lambda>i. [sum_list (take i sph)..<sum_list (take i sph) + sph ! i])
                               (element_index atom_contains mol e1)),
                      concat (map (\<lambda>i. [sum_list (take i sph)..<sum_list (take i sph) + sph ! i])
                               (element_index atom_contains mol e2)), R)"
    by (rule exI)
qed

theorem element_selector_witness:
  "element_index atom_contains
     [\<lparr>label = ''cd'', coordinates = (0, 0, 0)\<rparr>, \<lparr>label = ''se'', coordinates = (1, 0, 0)\<rparr>,
      \<lparr>label = ''cd'', coordinates = (2, 0, 0)\<rparr>] ''Cd'' = [0, 2]
   \<and> (\<exists>R. compute_overlap_and_atomic_orbitals atom_contains
              \<lparr>shape0 = 7, shape1 = 7, item = (\<lambda>i j. real (10 * i + j))\<rparr> [2, 3, 2]
              [\<lparr>label = ''cd'', coordinates = (0, 0, 0)\<rparr>,
               \<lparr>label = ''se'', coordinates = (1, 0, 0)\<rparr>,
               \<lparr>label = ''cd'', coordinates = (2, 0, 0)\<rparr>] ''Cd'' ''Se''
            = Inr ([0, 1, 5, 6], [2, 3, 4], R))"
proof -
  let ?mol = "[\<lparr>label = ''cd'', coordinates = (0, 0, 0)\<rparr>,
               \<lparr>label = ''se'', coordinates = (1, 0, 0)\<rparr>,
               \<lparr>label = ''cd'', coordinates = (2, 0, 0)\<rparr>]"
  let ?sph = "[2, 3, 2 :: nat]"
  let ?S = "\<lparr>shape0 = 7, shape1 = 7, item = (\<lambda>i j. real (10 * i + j))\<rparr>"
  have e1: "element_index atom_contains ?mol ''Cd'' = [0, 2]"
    by (simp add: element_index_def atom_contains_def lower_def lower_char_def
          enumerate_eq_zip upt_rec)
  have e2: "element_index atom_contains ?mol ''Se'' = [1]"
    by (simp add: element_index_def atom_contains_def lower_def lower_char_def
          enumerate_eq_zip upt_rec)
  have h: "length ?sph = length ?mol" by simp
  have lc: "\<forall>a \<in> set ?mol. lower (label a) = label a"
    by (simp add: lower_def lower_char_def)
  note es = element_selector [OF h lc, of "''Cd''" ?S "''Se''"]
  have "\<exists>R. compute_overlap_and_atomic_orbitals atom_contains ?S ?sph ?mol ''Cd'' ''Se''
          = Inr (concat (map (\<lambda>i. [sum_list (take i ?sph)..<sum_list (take i ?sph) + ?sph ! i])
                          (element_index atom_contains ?mol ''Cd'')),
                 concat (map (\<lambda>i. [sum_list (take i ?sph)..<sum_list (take i ?sph) + ?sph ! i])
                          (element_index atom_contains ?mol ''Se'')), R)"
    by (rule es [THEN conjunct2, THEN conjunct2, THEN mp]) (simp add: e1 e2)
  then show ?thesis by (simp add: e1 e2 upt_rec)
qed

text \<open>
  Claim C10, as amended. Take an atom list whose stored labels are in lower case, with
  one orbital count for each atom, and an atom \<open>i\<close> whose label contains both element
  labels as substrings, case ignored (containment as written is a case of it, by
  \<open>contains_lower\<close>). Provided that the atoms matched by each label have the orbital count
  of atom \<open>i\<close> and that the sum of all counts is within the overlap matrix, the function
  returns without error, there being no check of disjointness; \<open>i\<close> is in both index
  lists; the range of its orbitals, from \<open>offset[i]\<close> up to \<open>offset[i] + sphericals[i]\<close>,
  is in both orbital index sequences; and these orbitals contribute to both sides of the
  contraction: each of them is a row index \<open>idx1[a]\<close> and a column index \<open>idx2[b]\<close> of the
  reduced matrix, \<^verbatim>\<open>compute_coop\<close> on the returned triple and any coefficient matrix with
  a row for every orbital and at least one level returns, and its value at level \<open>k\<close> is
  the double sum over \<open>idx1\<close> and \<open>idx2\<close>, in which such an orbital \<open>p\<close> occurs on the left
  and on the right, with the factor \<open>S[p, p]\<close>.
\<close>

theorem shared_atom:
  assumes "length sph = length mol"
    and "\<forall>a \<in> set mol. lower (label a) = label a"
    and "i < length mol"
    and "\<exists>ps ss. lower (label (mol ! i)) = ps @ lower e1 @ ss"
    and "\<exists>ps ss. lower (label (mol ! i)) = ps @ lower e2 @ ss"
    and "\<forall>a \<in> set (element_index atom_contains mol e1). sph ! a = sph ! i"
    and "\<forall>a \<in> set (element_index atom_contains mol e2). sph ! a = sph ! i"
    and "sum_list sph \<le> shape0 S" and "sum_list sph \<le> shape1 S"
  shows "\<exists>idx1 idx2 R.
           compute_overlap_and_atomic_orbitals atom_contains S sph mol e1 e2 = Inr (idx1, idx2, R)
           \<and> i \<in> set (element_index atom_contains mol e1)
           \<and> i \<in> set (element_index atom_contains mol e2)
           \<and> set [sum_list (take i sph)..<sum_list (take i sph) + sph ! i]
                \<subseteq> set idx1 \<inter> set idx2
           \<and> (\<forall>a < length idx1. \<forall>b < length idx2. item R a b = item S (idx1 ! a) (idx2 ! b))
           \<and> (\<forall>p \<in> set [sum_list (take i sph)..<sum_list (take i sph) + sph ! i].
                 \<exists>a < length idx1. \<exists>b < length idx2. idx1 ! a = p \<and> idx2 ! b = p)
           \<and> (\<forall>C. 0 < shape1 C \<and> sum_list sph \<le> shape0 C \<longrightarrow>
                 (\<exists>coop. compute_coop C R idx1 idx2 = Inr coop
                    \<and> length coop = shape1 C
                    \<and> (\<forall>k < shape1 C.
                          coop ! k = (\<Sum>a<length idx1. \<Sum>b<length idx2.
                                        item C (idx1 ! a) k * item C (idx2 ! b) k * item R a b))))"
proof -
  let ?I1 = "element_index atom_contains mol e1" and ?I2 = "element_index atom_contains mol e2"
  let ?f = "\<lambda>i. [sum_list (take i sph)..<sum_list (take i sph) + sph ! i]"
  let ?f1 = "concat (map ?f ?I1)" and ?f2 = "concat (map ?f ?I2)"
  let ?R = "\<lparr>shape0 = length ?f1, shape1 = length ?f2,
             item = (\<lambda>a b. item S (?f1 ! a) (?f2 ! b))\<rparr>"
  have m1: "i \<in> set ?I1"
    unfolding element_index_atoms [OF assms(2)] using assms(3,4) by simp
  have m2: "i \<in> set ?I2"
    unfolding element_index_atoms [OF assms(2)] using assms(3,5) by simp
  have ne1: "?I1 \<noteq> []" and ne2: "?I2 \<noteq> []" using m1 m2 by auto
  then have h1: "hd ?I1 \<in> set ?I1" and h2: "hd ?I2 \<in> set ?I2" by simp_all
  from assms(6) h1 have u1: "\<forall>a \<in> set ?I1. sph ! a = sph ! hd ?I1" by metis
  from assms(7) h2 have u2: "\<forall>a \<in> set ?I2. sph ! a = sph ! hd ?I2" by metis
  note r = compute_success [OF assms(1) ne1 ne2 u1 u2 assms(8,9)]
  have s1: "set (?f i) \<subseteq> set ?f1" using m1 by (rule range_in_flat)
  have s2: "set (?f i) \<subseteq> set ?f2" using m2 by (rule range_in_flat)
  have sub: "set (?f i) \<subseteq> set ?f1 \<inter> set ?f2" using s1 s2 by blast
  have ent: "\<forall>a < length ?f1. \<forall>b < length ?f2. item ?R a b = item S (?f1 ! a) (?f2 ! b)"
    by simp
  have pos: "\<forall>p \<in> set (?f i). \<exists>a < length ?f1. \<exists>b < length ?f2. ?f1 ! a = p \<and> ?f2 ! b = p"
  proof
    fix p assume p: "p \<in> set (?f i)"
    with s1 have "p \<in> set ?f1" by blast
    then obtain a where a: "a < length ?f1" "?f1 ! a = p" by (auto simp only: in_set_conv_nth)
    from p s2 have "p \<in> set ?f2" by blast
    then obtain b where b: "b < length ?f2" "?f2 ! b = p" by (auto simp only: in_set_conv_nth)
    from a b show "\<exists>a < length ?f1. \<exists>b < length ?f2. ?f1 ! a = p \<and> ?f2 ! b = p" by blast
  qed
  have b1: "\<forall>i \<in> set ?I1. i < length sph" and b2: "\<forall>i \<in> set ?I2. i < length sph"
    using assms(1) by (auto dest: element_index_bound)
  have con: "\<forall>C. 0 < shape1 C \<and> sum_list sph \<le> shape0 C \<longrightarrow>
                 (\<exists>coop. compute_coop C ?R ?f1 ?f2 = Inr coop
                    \<and> length coop = shape1 C
                    \<and> (\<forall>k < shape1 C.
                          coop ! k = (\<Sum>a<length ?f1. \<Sum>b<length ?f2.
                                        item C (?f1 ! a) k * item C (?f2 ! b) k * item ?R a b)))"
  proof (intro allI impI)
    fix C :: array2
    assume c: "0 < shape1 C \<and> sum_list sph \<le> shape0 C"
    then have c0: "0 < shape1 C" and c1: "sum_list sph \<le> shape0 C" by blast+
    have i1: "\<forall>p \<in> set ?f1. p < shape0 C" using flat_bound [OF b1] c1 by fastforce
    have i2: "\<forall>p \<in> set ?f2. p < shape0 C" using flat_bound [OF b2] c1 by fastforce
    have sh0: "shape0 ?R = length ?f1" and sh1: "shape1 ?R = length ?f2" by simp_all
    note ok = compute_coop_ok [OF c0 sh0 sh1 i1 i2]
    show "\<exists>coop. compute_coop C ?R ?f1 ?f2 = Inr coop
                    \<and> length coop = shape1 C
                    \<and> (\<forall>k < shape1 C.
                          coop ! k = (\<Sum>a<length ?f1. \<Sum>b<length ?f2.
                                        item C (?f1 ! a) k * item C (?f2 ! b) k * item ?R a b))"
      unfolding ok by simp
  qed
  from r m1 m2 sub ent pos con show ?thesis by blast
qed

theorem shared_atom_witness:
  "element_index atom_contains
     [\<lparr>label = ''cd'', coordinates = (0, 0, 0)\<rparr>, \<lparr>label = ''cdse'', coordinates = (1, 0, 0)\<rparr>,
      \<lparr>label = ''se'', coordinates = (2, 0, 0)\<rparr>] ''Cd'' = [0, 1]
   \<and> element_index atom_contains
     [\<lparr>label = ''cd'', coordinates = (0, 0, 0)\<rparr>, \<lparr>label = ''cdse'', coordinates = (1, 0, 0)\<rparr>,
      \<lparr>label = ''se'', coordinates = (2, 0, 0)\<rparr>] ''Se'' = [1, 2]
   \<and> (\<exists>R. compute_overlap_and_atomic_orbitals atom_contains
              \<lparr>shape0 = 3, shape1 = 3, item = (\<lambda>i j. real (10 * i + j))\<rparr> [1, 1, 1]
              [\<lparr>label = ''cd'', coordinates = (0, 0, 0)\<rparr>,
               \<lparr>label = ''cdse'', coordinates = (1, 0, 0)\<rparr>,
               \<lparr>label = ''se'', coordinates = (2, 0, 0)\<rparr>] ''Cd'' ''Se''
            = Inr ([0, 1], [1, 2], R)
          \<and> compute_coop \<lparr>shape0 = 3, shape1 = 1, item = (\<lambda>i k. real (i + 1))\<rparr> R [0, 1] [1, 2]
            = Inr [124])"
proof -
  let ?mol = "[\<lparr>label = ''cd'', coordinates = (0, 0, 0)\<rparr>,
               \<lparr>label = ''cdse'', coordinates = (1, 0, 0)\<rparr>,
               \<lparr>label = ''se'', coordinates = (2, 0, 0)\<rparr>]"
  let ?sph = "[1, 1, 1 :: nat]"
  let ?S = "\<lparr>shape0 = 3, shape1 = 3, item = (\<lambda>i j. real (10 * i + j))\<rparr>"
  let ?C = "\<lparr>shape0 = 3, shape1 = 1, item = (\<lambda>i k. real (i + 1))\<rparr>"
  have e1: "element_index atom_contains ?mol ''Cd'' = [0, 1]"
    by (simp add: element_index_def atom_contains_def lower_def lower_char_def
          enumerate_eq_zip upt_rec)
  have e2: "element_index atom_contains ?mol ''Se'' = [1, 2]"
    by (simp add: element_index_def atom_contains_def lower_def lower_char_def
          enumerate_eq_zip upt_rec)
  have h1: "length ?sph = length ?mol" by simp
  have h2: "\<forall>a \<in> set ?mol. lower (label a) = label a"
    by (simp add: lower_def lower_char_def)
  have h3: "1 < length ?mol" by simp
  have "lower (label (?mol ! 1)) = [] @ lower ''Cd'' @ ''se''"
    by (simp add: lower_def lower_char_def)
  then have h4: "\<exists>ps ss. lower (label (?mol ! 1)) = ps @ lower ''Cd'' @ ss" by blast
  have "lower (label (?mol ! 1)) = ''cd'' @ lower ''Se'' @ []"
    by (simp add: lower_def lower_char_def)
  then have h5: "\<exists>ps ss. lower (label (?mol ! 1)) = ps @ lower ''Se'' @ ss" by blast
  have h6: "\<forall>a \<in> set (element_index atom_contains ?mol ''Cd''). ?sph ! a = ?sph ! 1"
    unfolding e1 by simp
  have h7: "\<forall>a \<in> set (element_index atom_contains ?mol ''Se''). ?sph ! a = ?sph ! 1"
    unfolding e2 by simp
  have h8: "sum_list ?sph \<le> shape0 ?S" and h9: "sum_list ?sph \<le> shape1 ?S" by simp_all
  have c: "0 < shape1 ?C \<and> sum_list ?sph \<le> shape0 ?C" by simp
  have ev: "compute_overlap_and_atomic_orbitals atom_contains ?S ?sph ?mol ''Cd'' ''Se''
            = Inr ([0, 1], [1, 2],
                   \<lparr>shape0 = 2, shape1 = 2, item = (\<lambda>a b. item ?S ([0, 1] ! a) ([1, 2] ! b))\<rparr>)"
    by (simp add: selector_eval numeral_2_eq_2)
  have ev2: "compute_coop ?C
               \<lparr>shape0 = 2, shape1 = 2, item = (\<lambda>a b. item ?S ([0, 1] ! a) ([1, 2] ! b))\<rparr>
               [0, 1] [1, 2] = Inr [124]"
    by (simp add: compute_coop_def coop_func_def column_def gather_def multiply_def
          tensordot0_def broadcast_dim_def bidx_def np_sum_def upt_rec numeral_2_eq_2)
  from shared_atom [OF h1 h2 h3 h4 h5 h6 h7 h8 h9]
  obtain idx1 idx2 R where
    r: "compute_overlap_and_atomic_orbitals atom_contains ?S ?sph ?mol ''Cd'' ''Se''
          = Inr (idx1, idx2, R)"
    and co: "\<forall>C. 0 < shape1 C \<and> sum_list ?sph \<le> shape0 C \<longrightarrow>
                 (\<exists>coop. compute_coop C R idx1 idx2 = Inr coop
                    \<and> length coop = shape1 C
                    \<and> (\<forall>k < shape1 C.
                          coop ! k = (\<Sum>a<length idx1. \<Sum>b<length idx2.
                                        item C (idx1 ! a) k * item C (idx2 ! b) k * item R a b)))"
    by blast
  from r ev have i1: "idx1 = [0, 1]" and i2: "idx2 = [1, 2]"
    and rr: "R = \<lparr>shape0 = 2, shape1 = 2, item = (\<lambda>a b. item ?S ([0, 1] ! a) ([1, 2] ! b))\<rparr>"
    by simp_all
  from co c obtain coop where "compute_coop ?C R idx1 idx2 = Inr coop" by blast
  with ev2 have "compute_coop ?C R [0, 1] [1, 2] = Inr [124]"
    unfolding i1 i2 rr by simp
  with r show ?thesis unfolding i1 i2 using e1 e2 by blast
qed

text \<open>
  The claim as first stated promises that the construction proceeds without error
  whenever an atom contains both labels. With the atoms \<open>cd\<close>, \<open>cdse\<close>, \<open>se\<close>, the orbital
  counts 1, 2, 1 and the labels \<open>cd\<close> and \<open>se\<close>, the second atom contains both labels and
  is collected in both lists, but the atoms matched by \<open>cd\<close> have one and two orbitals:
  the function fails with ValueError.
\<close>

theorem shared_atom_counterexample:
  "lower (label \<lparr>label = ''cdse'', coordinates = (1, 0, 0)\<rparr>) = [] @ lower ''cd'' @ ''se''
   \<and> lower (label \<lparr>label = ''cdse'', coordinates = (1, 0, 0)\<rparr>) = ''cd'' @ lower ''se'' @ []
   \<and> element_index atom_contains
       [\<lparr>label = ''cd'', coordinates = (0, 0, 0)\<rparr>, \<lparr>label = ''cdse'', coordinates = (1, 0, 0)\<rparr>,
        \<lparr>label = ''se'', coordinates = (2, 0, 0)\<rparr>] ''cd'' = [0, 1]
   \<and> element_index atom_contains
       [\<lparr>label = ''cd'', coordinates = (0, 0, 0)\<rparr>, \<lparr>label = ''cdse'', coordinates = (1, 0, 0)\<rparr>,
        \<lparr>label = ''se'', coordinates = (2, 0, 0)\<rparr>] ''se'' = [1, 2]
   \<and> compute_overlap_and_atomic_orbitals atom_contains
       \<lparr>shape0 = 4, shape1 = 4, item = (\<lambda>i j. 1)\<rparr> [1, 2, 1]
       [\<lparr>label = ''cd'', coordinates = (0, 0, 0)\<rparr>, \<lparr>label = ''cdse'', coordinates = (1, 0, 0)\<rparr>,
        \<lparr>label = ''se'', coordinates = (2, 0, 0)\<rparr>] ''cd'' ''se'' = Inl ValueError"
  by (simp add: selector_eval)

end
